theory Spec2Isabelle
  imports Complex_Main
begin

section \<open>Cycling power optimizer: physics engine, segment smoothing and power allocation\<close>

text \<open>
  The embedding follows \<^verbatim>\<open>app.js\<close>. A JavaScript number is either a finite number or
  one of NaN, Infinity and -Infinity. The inputs (track segments and rider parameters) are
  finite numbers, and so is everything that the first pass of \<open>optimize\<close> and the headwind
  helper compute from them: these are modelled by the reals, with \<open>Math.max\<close>, \<open>Math.min\<close>
  and \<open>Math.abs\<close> as \<open>max\<close>, \<open>min\<close> and \<open>abs\<close>. Where the source divides by a number
  that can be zero, or raises a number that can be negative to a fractional power, its
  result can be non-finite: the speed that \<open>speedAtPower\<close> returns, the segment times, the
  W' balance and the ride metrics are modelled by the type \<open>jsnum\<close> below, whose operations
  follow the arithmetic of the source on the non-finite values. Rounding, overflow and
  the sign of zero are outside the model.
  A parameter or local variable of the source whose name is also the name of a record
  field (or of a HOL constant) carries a prime here.
\<close>

subsection \<open>Constants\<close>

definition GRAVITY :: real where "GRAVITY = 9.81"
definition AIR_DENSITY :: real where "AIR_DENSITY = 1.225"
definition DRIVETRAIN_LOSS :: real where "DRIVETRAIN_LOSS = 0.03"
definition MIN_POWER :: real where "MIN_POWER = 50"
definition MAX_POWER_FACTOR :: real where "MAX_POWER_FACTOR = 1.20"
definition SEGMENT_LENGTH :: real where "SEGMENT_LENGTH = 100"

subsection \<open>Data model\<close>

text \<open>A route segment, as \<open>processRoute\<close> and \<open>smoothSegments\<close> push it.\<close>

record segment =
  startLat :: real
  startLon :: real
  endLat :: real
  endLon :: real
  distance :: real
  cumulativeDistance :: real
  elevation :: real
  gradient :: real
  bearing :: real

text \<open>The object \<open>{ totalMass, cda, crr }\<close> that the physics engine destructures, and the
  full parameter object of \<open>getParams\<close> that extends it.\<close>

record physics =
  totalMass :: real
  cda :: real
  crr :: real

record params = physics +
  ftp :: real
  wprime :: real
  windSpeed :: real
  windDirection :: real
  targetIntensity :: real

subsection \<open>JavaScript arithmetic helpers\<close>

text \<open>The remainder \<open>x % y\<close> on numbers: the quotient is truncated towards zero, so the
  result has the sign of \<open>x\<close>. (The source only divides by the constant 360.)\<close>

definition js_rem :: "real \<Rightarrow> real \<Rightarrow> real" where
  "js_rem x y = x - y * of_int (let q = x / y in if 0 \<le> q then \<lfloor>q\<rfloor> else \<lceil>q\<rceil>)"

text \<open>\<open>Math.atan2(y, x)\<close> (signed zeros apart).\<close>

definition atan2 :: "real \<Rightarrow> real \<Rightarrow> real" where
  "atan2 y x =
     (if 0 < x then arctan (y / x)
      else if x < 0 then (if 0 \<le> y then arctan (y / x) + pi else arctan (y / x) - pi)
      else if 0 < y then pi / 2
      else if y < 0 then - pi / 2
      else 0)"

subsection \<open>JavaScript numbers with their non-finite values\<close>

datatype jsnum = Num real | PosInf | NegInf | NaN

fun js_neg :: "jsnum \<Rightarrow> jsnum" where
  "js_neg (Num a) = Num (- a)"
| "js_neg PosInf = NegInf"
| "js_neg NegInf = PosInf"
| "js_neg NaN = NaN"

text \<open>\<open>x + y\<close>: NaN is contagious, and the two infinities cancel to NaN.\<close>

fun js_add :: "jsnum \<Rightarrow> jsnum \<Rightarrow> jsnum" where
  "js_add (Num a) (Num b) = Num (a + b)"
| "js_add NaN y = NaN"
| "js_add x NaN = NaN"
| "js_add PosInf NegInf = NaN"
| "js_add NegInf PosInf = NaN"
| "js_add PosInf y = PosInf"
| "js_add x PosInf = PosInf"
| "js_add NegInf y = NegInf"
| "js_add x NegInf = NegInf"

definition js_sub :: "jsnum \<Rightarrow> jsnum \<Rightarrow> jsnum" where
  "js_sub x y = js_add x (js_neg y)"

text \<open>\<open>x * y\<close>: zero times an infinity is NaN.\<close>

fun js_mul :: "jsnum \<Rightarrow> jsnum \<Rightarrow> jsnum" where
  "js_mul (Num a) (Num b) = Num (a * b)"
| "js_mul NaN y = NaN"
| "js_mul x NaN = NaN"
| "js_mul (Num a) PosInf = (if a = 0 then NaN else if 0 < a then PosInf else NegInf)"
| "js_mul (Num a) NegInf = (if a = 0 then NaN else if 0 < a then NegInf else PosInf)"
| "js_mul PosInf (Num b) = (if b = 0 then NaN else if 0 < b then PosInf else NegInf)"
| "js_mul NegInf (Num b) = (if b = 0 then NaN else if 0 < b then NegInf else PosInf)"
| "js_mul PosInf PosInf = PosInf"
| "js_mul NegInf NegInf = PosInf"
| "js_mul PosInf NegInf = NegInf"
| "js_mul NegInf PosInf = NegInf"

text \<open>\<open>x / y\<close>: a non-zero number over zero is an infinity of its sign, zero over zero is
  NaN, a finite number over an infinity is zero, and an infinity over an infinity is NaN.\<close>

fun js_div :: "jsnum \<Rightarrow> jsnum \<Rightarrow> jsnum" where
  "js_div (Num a) (Num b) =
     (if b \<noteq> 0 then Num (a / b) else if a = 0 then NaN else if 0 < a then PosInf else NegInf)"
| "js_div NaN y = NaN"
| "js_div x NaN = NaN"
| "js_div (Num a) PosInf = Num 0"
| "js_div (Num a) NegInf = Num 0"
| "js_div PosInf (Num b) = (if 0 \<le> b then PosInf else NegInf)"
| "js_div NegInf (Num b) = (if 0 \<le> b then NegInf else PosInf)"
| "js_div PosInf PosInf = NaN"
| "js_div PosInf NegInf = NaN"
| "js_div NegInf PosInf = NaN"
| "js_div NegInf NegInf = NaN"

text \<open>\<open>x < y\<close>: false as soon as one side is NaN.\<close>

fun js_lt :: "jsnum \<Rightarrow> jsnum \<Rightarrow> bool" where
  "js_lt (Num a) (Num b) = (a < b)"
| "js_lt NaN y = False"
| "js_lt x NaN = False"
| "js_lt PosInf y = False"
| "js_lt x NegInf = False"
| "js_lt x PosInf = True"
| "js_lt NegInf y = True"

text \<open>\<open>Math.max\<close>, \<open>Math.min\<close> and \<open>Math.abs\<close>: NaN if an argument is NaN.\<close>

fun js_max :: "jsnum \<Rightarrow> jsnum \<Rightarrow> jsnum" where
  "js_max (Num a) (Num b) = Num (max a b)"
| "js_max NaN y = NaN"
| "js_max x NaN = NaN"
| "js_max PosInf y = PosInf"
| "js_max x PosInf = PosInf"
| "js_max NegInf y = y"
| "js_max x NegInf = x"

fun js_min :: "jsnum \<Rightarrow> jsnum \<Rightarrow> jsnum" where
  "js_min (Num a) (Num b) = Num (min a b)"
| "js_min NaN y = NaN"
| "js_min x NaN = NaN"
| "js_min NegInf y = NegInf"
| "js_min x NegInf = NegInf"
| "js_min PosInf y = y"
| "js_min x PosInf = x"

fun js_abs :: "jsnum \<Rightarrow> jsnum" where
  "js_abs (Num a) = Num \<bar>a\<bar>"
| "js_abs PosInf = PosInf"
| "js_abs NegInf = PosInf"
| "js_abs NaN = NaN"

text \<open>\<open>x ** 2\<close>.\<close>

fun js_square :: "jsnum \<Rightarrow> jsnum" where
  "js_square (Num a) = Num (a ^ 2)"
| "js_square PosInf = PosInf"
| "js_square NegInf = PosInf"
| "js_square NaN = NaN"

text \<open>\<open>Math.pow(x, y)\<close> for an exponent \<open>y > 0\<close> that is not an integer (the source uses
  \<open>1 / 3\<close> and \<open>0.25\<close>): NaN for a negative base, Infinity for either infinity.\<close>

fun js_pow :: "jsnum \<Rightarrow> real \<Rightarrow> jsnum" where
  "js_pow (Num a) y = (if a < 0 then NaN else Num (a powr y))"
| "js_pow PosInf y = PosInf"
| "js_pow NegInf y = PosInf"
| "js_pow NaN y = NaN"

subsection \<open>PhysicsEngine\<close>

definition powerRequired :: "real \<Rightarrow> real \<Rightarrow> real \<Rightarrow> 'a physics_scheme \<Rightarrow> real" where
  "powerRequired speed' gradient' headwind' ps =
     (let airSpeed = speed' + headwind';
          P_aero = 0.5 * AIR_DENSITY * cda ps * (airSpeed ^ 2) * speed';
          P_gravity = totalMass ps * GRAVITY * gradient' * speed';
          cosGradient = cos (arctan gradient');
          P_rolling = crr ps * totalMass ps * GRAVITY * cosGradient * speed';
          P_total = (P_aero + P_gravity + P_rolling) / (1 - DRIVETRAIN_LOSS)
      in max MIN_POWER P_total)"

text \<open>The local \<open>P_total\<close> of \<open>powerRequired\<close>, the sum before the floor, on its own.\<close>

definition P_total :: "real \<Rightarrow> real \<Rightarrow> real \<Rightarrow> 'a physics_scheme \<Rightarrow> real" where
  "P_total speed' gradient' headwind' ps =
     (0.5 * AIR_DENSITY * cda ps * ((speed' + headwind') ^ 2) * speed'
      + totalMass ps * GRAVITY * gradient' * speed'
      + crr ps * totalMass ps * GRAVITY * cos (arctan gradient') * speed')
     / (1 - DRIVETRAIN_LOSS)"

text \<open>The three ways the Newton-Raphson loop of \<open>speedAtPower\<close> ends: the residual test
  (first \<open>break\<close>), the derivative guard (second \<open>break\<close>), or the loop bound.\<close>

datatype loop_exit = Converged | FlatDerivative | Exhausted

text \<open>The loop body on a finite speed, with the number of iterations left as first
  argument; the result is the speed together with the exit taken.\<close>

fun newtonRaphson ::
  "nat \<Rightarrow> real \<Rightarrow> real \<Rightarrow> real \<Rightarrow> 'a physics_scheme \<Rightarrow> real \<Rightarrow> real \<times> loop_exit" where
  "newtonRaphson 0 power' gradient' headwind' ps speed' = (speed', Exhausted)"
| "newtonRaphson (Suc n) power' gradient' headwind' ps speed' =
     (let currentPower = powerRequired speed' gradient' headwind' ps;
          err = currentPower - power'
      in if \<bar>err\<bar> < 0.1 then (speed', Converged)
         else
           let dSpeed = 0.1;
               dPower = powerRequired (speed' + dSpeed) gradient' headwind' ps - currentPower;
               derivative = dPower / dSpeed
           in if \<bar>derivative\<bar> < 0.001 then (speed', FlatDerivative)
              else newtonRaphson n power' gradient' headwind' ps
                     (max 1 (min (speed' - err / derivative) 30)))"

text \<open>\<open>speedAtPower\<close> on finite numbers. The seed of the source is a finite number exactly
  when \<open>cda\<close> is not zero and the quotient \<open>power / (0.5 * AIR_DENSITY * cda)\<close> is not
  negative; for these inputs the definition below is the source's function. For the other
  inputs the source starts from NaN or Infinity: see \<open>speedAtPower_js\<close> below, which is the
  function that \<open>optimize\<close> calls.\<close>

definition speedAtPower_run ::
  "real \<Rightarrow> real \<Rightarrow> real \<Rightarrow> 'a physics_scheme \<Rightarrow> real \<times> loop_exit" where
  "speedAtPower_run power' gradient' headwind' ps =
     newtonRaphson 20 power' gradient' headwind' ps
       ((power' / (0.5 * AIR_DENSITY * cda ps)) powr (1 / 3))"

definition speedAtPower :: "real \<Rightarrow> real \<Rightarrow> real \<Rightarrow> 'a physics_scheme \<Rightarrow> real" where
  "speedAtPower power' gradient' headwind' ps =
     fst (speedAtPower_run power' gradient' headwind' ps)"

text \<open>The same two functions on JavaScript numbers: the speed estimate may be NaN or an
  infinity, the power, the gradient and the headwind are finite.\<close>

definition powerRequired_js :: "jsnum \<Rightarrow> real \<Rightarrow> real \<Rightarrow> 'a physics_scheme \<Rightarrow> jsnum" where
  "powerRequired_js speed' gradient' headwind' ps =
     (let airSpeed = js_add speed' (Num headwind');
          P_aero = js_mul (js_mul (Num (0.5 * AIR_DENSITY * cda ps)) (js_square airSpeed)) speed';
          P_gravity = js_mul (Num (totalMass ps * GRAVITY * gradient')) speed';
          cosGradient = cos (arctan gradient');
          P_rolling = js_mul (Num (crr ps * totalMass ps * GRAVITY * cosGradient)) speed';
          P_total = js_div (js_add (js_add P_aero P_gravity) P_rolling) (Num (1 - DRIVETRAIN_LOSS))
      in js_max (Num MIN_POWER) P_total)"

fun newtonRaphson_js ::
  "nat \<Rightarrow> real \<Rightarrow> real \<Rightarrow> real \<Rightarrow> 'a physics_scheme \<Rightarrow> jsnum \<Rightarrow> jsnum \<times> loop_exit" where
  "newtonRaphson_js 0 power' gradient' headwind' ps speed' = (speed', Exhausted)"
| "newtonRaphson_js (Suc n) power' gradient' headwind' ps speed' =
     (let currentPower = powerRequired_js speed' gradient' headwind' ps;
          err = js_sub currentPower (Num power')
      in if js_lt (js_abs err) (Num 0.1) then (speed', Converged)
         else
           let dSpeed = 0.1;
               dPower = js_sub (powerRequired_js (js_add speed' (Num dSpeed)) gradient' headwind' ps)
                          currentPower;
               derivative = js_div dPower (Num dSpeed)
           in if js_lt (js_abs derivative) (Num 0.001) then (speed', FlatDerivative)
              else newtonRaphson_js n power' gradient' headwind' ps
                     (js_max (Num 1) (js_min (js_sub speed' (js_div err derivative)) (Num 30))))"

definition speedAtPower_js :: "real \<Rightarrow> real \<Rightarrow> real \<Rightarrow> 'a physics_scheme \<Rightarrow> jsnum" where
  "speedAtPower_js power' gradient' headwind' ps =
     fst (newtonRaphson_js 20 power' gradient' headwind' ps
            (js_pow (js_div (Num power') (Num (0.5 * AIR_DENSITY * cda ps))) (1 / 3)))"

definition calculateHeadwind :: "real \<Rightarrow> real \<Rightarrow> real \<Rightarrow> real" where
  "calculateHeadwind windSpeed' windDirection' bearing' =
     (let windTo = js_rem (windDirection' + 180) 360;
          angleRad = (windTo - bearing') * pi / 180
      in - windSpeed' * cos angleRad)"

subsection \<open>Quantities for the analysis of the Newton-Raphson loop\<close>




subsection \<open>GPXParser.smoothSegments\<close>

text \<open>The local object \<open>accumulated\<close>. (Fields that share a name with a segment field
  carry the prefix \<open>acc_\<close>.)\<close>

record accumulator =
  acc_distance :: real
  elevationStart :: real
  elevationSum :: real
  bearingX :: real
  bearingY :: real
  acc_startLat :: real
  acc_startLon :: real
  acc_endLat :: real
  acc_endLon :: real
  acc_cumulativeDistance :: real

text \<open>The body of \<open>segments.forEach((seg, i) => ...)\<close>: \<open>n\<close> is \<open>segments.length\<close>,
  \<open>i\<close> the index of the head of the remaining list, \<open>smoothed\<close> the output so far.
  (The two quotients by the accumulated distance are HOL's: where that distance is zero
  the source has NaN for the elevation and the gradient of the emitted segment. The
  emitted distance does not depend on them.)\<close>

fun smooth_loop ::
  "real \<Rightarrow> int \<Rightarrow> int \<Rightarrow> accumulator \<Rightarrow> segment list \<Rightarrow> segment list \<Rightarrow> segment list" where
  "smooth_loop targetLength n i accumulated smoothed [] = smoothed"
| "smooth_loop targetLength n i accumulated smoothed (seg # rest) =
     (let acc = accumulated
            \<lparr> acc_distance := acc_distance accumulated + distance seg,
              elevationSum := elevationSum accumulated + elevation seg * distance seg,
              bearingX := bearingX accumulated + cos (bearing seg * pi / 180) * distance seg,
              bearingY := bearingY accumulated + sin (bearing seg * pi / 180) * distance seg,
              acc_endLat := endLat seg,
              acc_endLon := endLon seg,
              acc_cumulativeDistance := cumulativeDistance seg \<rparr>
      in if acc_distance acc \<ge> targetLength \<or> i = n - 1 then
           (let avgElevation = elevationSum acc / acc_distance acc;
                bearing' = js_rem (atan2 (bearingY acc) (bearingX acc) * 180 / pi + 360) 360;
                gradient' = (avgElevation - elevationStart acc) / acc_distance acc
            in smooth_loop targetLength n (i + 1)
                 \<lparr> acc_distance = 0,
                   elevationStart = avgElevation,
                   elevationSum = 0,
                   bearingX = 0,
                   bearingY = 0,
                   acc_startLat = acc_endLat acc,
                   acc_startLon = acc_endLon acc,
                   acc_endLat = 0,
                   acc_endLon = 0,
                   acc_cumulativeDistance = acc_cumulativeDistance acc \<rparr>
                 (smoothed @
                   [\<lparr> startLat = acc_startLat acc,
                      startLon = acc_startLon acc,
                      endLat = acc_endLat acc,
                      endLon = acc_endLon acc,
                      distance = acc_distance acc,
                      cumulativeDistance = acc_cumulativeDistance acc,
                      elevation = avgElevation,
                      gradient = gradient',
                      bearing = bearing' \<rparr>])
                 rest)
         else smooth_loop targetLength n (i + 1) acc smoothed rest)"

text \<open>\<open>smoothSegments(segments, targetLength = CONSTANTS.SEGMENT_LENGTH)\<close>. The initial
  accumulator reads \<open>segments[0]?.elevation || 0\<close> and \<open>segments[0]?.startLat\<close>; the
  latter is \<open>undefined\<close> for the empty list, where the loop body never reads it.\<close>

definition smoothSegments :: "segment list \<Rightarrow> real \<Rightarrow> segment list" where
  "smoothSegments segments targetLength =
     smooth_loop targetLength (int (length segments)) 0
       \<lparr> acc_distance = 0,
         elevationStart = (case segments of [] \<Rightarrow> 0 | s # _ \<Rightarrow> elevation s),
         elevationSum = 0,
         bearingX = 0,
         bearingY = 0,
         acc_startLat = (case segments of [] \<Rightarrow> 0 | s # _ \<Rightarrow> startLat s),
         acc_startLon = (case segments of [] \<Rightarrow> 0 | s # _ \<Rightarrow> startLon s),
         acc_endLat = 0,
         acc_endLon = 0,
         acc_cumulativeDistance = 0 \<rparr>
       [] segments"

definition smoothSegments_default :: "segment list \<Rightarrow> segment list" where
  "smoothSegments_default segments = smoothSegments segments SEGMENT_LENGTH"

subsection \<open>PowerOptimizer.optimize\<close>

text \<open>The objects of the \<open>results\<close> array gain fields from pass to pass: the first pass
  pushes \<open>{...seg, headwind, optimizedPower}\<close>, the second assigns \<open>wBalance\<close> (and may
  overwrite \<open>optimizedPower\<close>), the third assigns \<open>speed\<close> and \<open>time\<close>.\<close>

record planned = segment +
  headwind :: real
  optimizedPower :: real

record balanced = planned +
  wBalance :: jsnum

record realized = balanced +
  speed :: jsnum
  time :: jsnum

record metrics =
  totalTime :: jsnum
  avgPower :: jsnum
  normPower :: jsnum
  intensityFactor :: jsnum
  tss :: jsnum
  avgSpeed :: jsnum
  minWBalance :: jsnum
  wprimePercent :: jsnum

record optimization_result =
  segments :: "realized list"
  metrics :: metrics

definition basePower :: "params \<Rightarrow> real" where
  "basePower ps = ftp ps * (targetIntensity ps / 100)"

definition maxPower :: "params \<Rightarrow> real" where
  "maxPower ps = ftp ps * MAX_POWER_FACTOR"

definition minPower :: "params \<Rightarrow> real" where
  "minPower ps = basePower ps * 0.5"

text \<open>Line 391: \<open>const aggressiveness = Math.max(0, (targetIntensity - 65) / 35); // 0 to 1\<close>\<close>

definition aggressiveness :: "params \<Rightarrow> real" where
  "aggressiveness ps = max 0 ((targetIntensity ps - 65) / 35)"

text \<open>The object handed to the physics engine: \<open>{ totalMass, cda, crr }\<close>.\<close>

definition physics_of :: "params \<Rightarrow> physics" where
  "physics_of ps = \<lparr> totalMass = totalMass ps, cda = cda ps, crr = crr ps \<rparr>"

text \<open>First pass, the body of \<open>segments.forEach(seg => ...)\<close>.\<close>

definition pass1_segment :: "params \<Rightarrow> segment \<Rightarrow> planned" where
  "pass1_segment ps seg =
     (let headwind' = calculateHeadwind (windSpeed ps / 3.6) (windDirection ps) (bearing seg);
          targetPower = basePower ps;
          gradientPercent = gradient seg * 100;
          targetPower =
            (if gradientPercent > 2.0 then
               (let maxBoost = 0.10 + aggressiveness ps * 0.20;
                    powerBoost = min ((gradientPercent - 2) * 0.10) maxBoost * aggressiveness ps;
                    climbTarget = ftp ps * (1 + powerBoost)
                in max (basePower ps) climbTarget)
             else if gradientPercent > 0.5 then
               (let rampFactor = (gradientPercent - 0.5) / 1.5
                in basePower ps + rampFactor * (ftp ps - basePower ps) * aggressiveness ps)
             else if gradientPercent < - 2.0 then
               (let powerReduction = min (\<bar>gradientPercent\<bar> * 0.12) 0.40
                in basePower ps * (1 - powerReduction))
             else if gradientPercent < 0 then
               (let powerReduction = \<bar>gradientPercent\<bar> * 0.05
                in basePower ps * (1 - powerReduction))
             else targetPower);
          targetPower =
            (if headwind' < 0 then
               (let windBoost = min (\<bar>headwind'\<bar> * 0.02) 0.10
                in targetPower * (1 + windBoost))
             else if headwind' > 0 then
               (let windReduction = min (headwind' * 0.015) 0.08
                in targetPower * (1 - windReduction))
             else targetPower);
          targetPower = max (minPower ps) (min (maxPower ps) targetPower)
      in segment.extend seg (planned.fields headwind' targetPower))"

definition pass1 :: "params \<Rightarrow> segment list \<Rightarrow> planned list" where
  "pass1 ps segs = map (pass1_segment ps) segs"

text \<open>Second pass, the body of \<open>results.forEach((seg, i) => ...)\<close>: from the balance entering
  the segment to the updated segment and the balance leaving it. The segment time is a
  quotient by the speed, which can be zero or NaN.\<close>

definition pass2_segment :: "params \<Rightarrow> jsnum \<Rightarrow> planned \<Rightarrow> balanced \<times> jsnum" where
  "pass2_segment ps wBalance' seg =
     (let speed' = speedAtPower_js (optimizedPower seg) (gradient seg) (headwind seg) (physics_of ps);
          segmentTime = js_div (Num (distance seg)) speed'
      in if optimizedPower seg > ftp ps then
           (let wCost = js_mul (Num (optimizedPower seg - ftp ps)) segmentTime
            in if js_lt (js_sub wBalance' wCost) (Num (wprime ps * 0.15))
               then (planned.extend (seg\<lparr>optimizedPower := basePower ps\<rparr>)
                       (balanced.fields wBalance'), wBalance')
               else (planned.extend seg (balanced.fields (js_sub wBalance' wCost)),
                     js_sub wBalance' wCost))
         else
           (let wRecovery = js_mul (js_mul (Num (ftp ps - optimizedPower seg)) segmentTime) (Num 0.30);
                wBalance'' = js_min (Num (wprime ps)) (js_add wBalance' wRecovery)
            in (planned.extend seg (balanced.fields wBalance''), wBalance'')))"

text \<open>The second loop, carrying \<open>wBalance\<close> and \<open>minWBalance\<close> across the segments.\<close>

fun pass2_loop ::
  "params \<Rightarrow> jsnum \<Rightarrow> jsnum \<Rightarrow> planned list \<Rightarrow> balanced list \<times> jsnum \<times> jsnum" where
  "pass2_loop ps wBalance' minWBalance' [] = ([], wBalance', minWBalance')"
| "pass2_loop ps wBalance' minWBalance' (seg # rest) =
     (let (seg', wBalance'') = pass2_segment ps wBalance' seg;
          minWBalance'' = js_min minWBalance' wBalance'';
          (out, final) = pass2_loop ps wBalance'' minWBalance'' rest
      in (seg' # out, final))"

definition pass2 :: "params \<Rightarrow> planned list \<Rightarrow> balanced list \<times> jsnum \<times> jsnum" where
  "pass2 ps results = pass2_loop ps (Num (wprime ps)) (Num (wprime ps)) results"

text \<open>Third pass: realized speed and time of each segment, and the three running sums
  \<open>totalTime\<close>, \<open>powerSum\<close>, \<open>power4Sum\<close>.\<close>

definition pass3_segment :: "params \<Rightarrow> balanced \<Rightarrow> realized" where
  "pass3_segment ps seg =
     (let speed' = speedAtPower_js (optimizedPower seg) (gradient seg) (headwind seg) (physics_of ps)
      in balanced.extend seg (realized.fields speed' (js_div (Num (distance seg)) speed')))"

fun pass3_loop ::
  "params \<Rightarrow> jsnum \<times> jsnum \<times> jsnum \<Rightarrow> balanced list \<Rightarrow> realized list \<times> jsnum \<times> jsnum \<times> jsnum" where
  "pass3_loop ps totals [] = ([], totals)"
| "pass3_loop ps (totalTime', powerSum, power4Sum) (seg # rest) =
     (let seg' = pass3_segment ps seg;
          (out, totals) = pass3_loop ps
             (js_add totalTime' (time seg'),
              js_add powerSum (js_mul (Num (optimizedPower seg')) (time seg')),
              js_add power4Sum (js_mul (Num ((optimizedPower seg') ^ 4)) (time seg'))) rest
      in (seg' # out, totals))"

text \<open>A call of \<open>optimize\<close> ends either in an error or in a returned result. The source
  declares no error type and the body of \<open>optimize\<close> has no \<open>throw\<close>, so the body below
  always returns; the two error kinds are the names that the specification gives to
  rejected input.\<close>

datatype error = InputTooShort | NonPhysicalParameter

definition optimize :: "segment list \<Rightarrow> params \<Rightarrow> error + optimization_result" where
  "optimize segs ps =
     (let results = pass1 ps segs;
          (results, wBalance', minWBalance') = pass2 ps results;
          (results, totalTime', powerSum, power4Sum) = pass3_loop ps (Num 0, Num 0, Num 0) results;
          avgPower' = js_div powerSum totalTime';
          normPower' = js_pow (js_div power4Sum totalTime') 0.25;
          intensityFactor' = js_div normPower' (Num (ftp ps));
          tss' = js_mul (js_mul (js_mul (js_div totalTime' (Num 3600)) intensityFactor')
                    intensityFactor') (Num 100);
          totalDistance = (case segs of [] \<Rightarrow> 0 | _ \<Rightarrow> cumulativeDistance (last segs));
          avgSpeed' = js_div (Num (totalDistance / 1000)) (js_div totalTime' (Num 3600))
      in Inr \<lparr> segments = results,
               metrics = \<lparr> totalTime = totalTime',
                           avgPower = avgPower',
                           normPower = normPower',
                           intensityFactor = intensityFactor',
                           tss = tss',
                           avgSpeed = avgSpeed',
                           minWBalance = minWBalance',
                           wprimePercent = js_mul (js_div minWBalance' (Num (wprime ps))) (Num 100) \<rparr> \<rparr>)"

text \<open>The two callers of \<open>optimize\<close>, \<open>calculate\<close> and \<open>autoRecommendIntensity\<close>: with no
  segments loaded each alerts and returns before \<open>optimize\<close> is invoked.\<close>

datatype alert = PleaseLoadGpxFirst

definition calculate :: "segment list \<Rightarrow> params \<Rightarrow> alert + (error + optimization_result)" where
  "calculate state_segments ps =
     (if state_segments = [] then Inl PleaseLoadGpxFirst
      else Inr (optimize state_segments ps))"

text \<open>Of \<open>autoRecommendIntensity\<close>, the guard and the test run
  \<open>testResult = PowerOptimizer.optimize(state.segments, { ...params, targetIntensity: 100 })\<close>
  that follows it; the rest of the function, which turns the estimated duration into a
  recommended intensity, is not modelled.\<close>

definition autoRecommendIntensity_testResult ::
  "segment list \<Rightarrow> params \<Rightarrow> alert + (error + optimization_result)" where
  "autoRecommendIntensity_testResult state_segments ps =
     (if state_segments = [] then Inl PleaseLoadGpxFirst
      else Inr (optimize state_segments (ps\<lparr>targetIntensity := 100\<rparr>)))"

section \<open>Auxiliary facts\<close>

lemmas rec_defs = segment.defs planned.defs balanced.defs realized.defs

subsection \<open>Cube roots and angles\<close>


lemma cube_root_27000: "(27000::real) powr (1 / 3) = 30"
proof -
  have "(27000::real) = 30 powr 3" by simp
  then show ?thesis by (simp only: powr_powr) simp
qed

lemma cube_root_64000: "(64000::real) powr (1 / 3) = 40"
proof -
  have "(64000::real) = 40 powr 3" by simp
  then show ?thesis by (simp only: powr_powr) simp
qed

lemma js_rem_360: "\<exists>k::int. js_rem x 360 = x - 360 * of_int k"
  unfolding js_rem_def by blast

lemma cos_odd_pi: "cos ((2 * of_int m + 1) * pi) = -1"
proof -
  have "cos ((2 * of_int m + 1) * pi) = cos (pi + (2 * pi) * of_int m)"
    by (simp add: algebra_simps)
  also have "\<dots> = - cos ((2 * pi) * of_int m)"
    by (simp only: cos_periodic_pi2)
  finally show ?thesis by simp
qed

lemma abs_cos_int_pi: "\<bar>cos (of_int m * pi)\<bar> = 1"
  by (simp add: mult.commute)

subsection \<open>The headwind helper\<close>

text \<open>Wind whose "from" direction differs from the bearing by a multiple of 180 degrees
  gives a component of full magnitude.\<close>

lemma calculateHeadwind_aligned:
  assumes "d - b = 180 * of_int k"
  shows "\<bar>calculateHeadwind w d b\<bar> = \<bar>w\<bar>"
proof -
  obtain j :: int where j: "js_rem (d + 180) 360 = d + 180 - 360 * of_int j"
    using js_rem_360 by blast
  have "(js_rem (d + 180) 360 - b) * pi / 180 = of_int (k + 1 - 2 * j) * pi"
    using assms unfolding j by (simp add: field_simps)
  then have "\<bar>cos ((js_rem (d + 180) 360 - b) * pi / 180)\<bar> = 1"
    by (simp only: abs_cos_int_pi)
  then show ?thesis
    unfolding calculateHeadwind_def Let_def by (simp add: abs_mult)
qed

text \<open>Wind from straight ahead, at any bearing: the helper returns the wind speed itself.\<close>

lemma calculateHeadwind_from_ahead: "calculateHeadwind w d d = w"
proof -
  obtain j :: int where j: "js_rem (d + 180) 360 = d + 180 - 360 * of_int j"
    using js_rem_360 by blast
  have "(js_rem (d + 180) 360 - d) * pi / 180 = (2 * of_int (- j) + 1) * pi"
    unfolding j by (simp add: field_simps)
  then have "cos ((js_rem (d + 180) 360 - d) * pi / 180) = -1"
    by (simp only: cos_odd_pi)
  then show ?thesis
    unfolding calculateHeadwind_def Let_def by simp
qed

subsection \<open>powerRequired and the Newton-Raphson loop\<close>

text \<open>Where the three power terms sum to nothing positive, \<open>powerRequired\<close> is its floor.\<close>

lemma powerRequired_floor:
  assumes "0 \<le> v" "0 \<le> crr ps" "0 \<le> totalMass ps"
    and "0.5 * AIR_DENSITY * cda ps * (v + h)^2 + totalMass ps * GRAVITY * g
           + crr ps * totalMass ps * GRAVITY \<le> 0"
  shows "powerRequired v g h ps = 50"
proof -
  define T where "T = 0.5 * AIR_DENSITY * cda ps * (v + h)^2 * v + totalMass ps * GRAVITY * g * v
      + crr ps * totalMass ps * GRAVITY * cos (arctan g) * v"
  have c1: "cos (arctan g) \<le> 1" by simp
  have "0 \<le> crr ps * totalMass ps * GRAVITY" using assms by (simp add: GRAVITY_def)
  then have "crr ps * totalMass ps * GRAVITY * cos (arctan g) \<le> crr ps * totalMass ps * GRAVITY"
    using c1 by (simp add: mult_left_le)
  then have "0.5 * AIR_DENSITY * cda ps * (v + h)^2 + totalMass ps * GRAVITY * g
      + crr ps * totalMass ps * GRAVITY * cos (arctan g) \<le> 0"
    using assms(4) by linarith
  then have "(0.5 * AIR_DENSITY * cda ps * (v + h)^2 + totalMass ps * GRAVITY * g
      + crr ps * totalMass ps * GRAVITY * cos (arctan g)) * v \<le> 0"
    using assms(1) by (simp add: mult_nonpos_nonneg)
  then have "T \<le> 0"
    unfolding T_def by (simp only: distrib_right)
  then have "T / (1 - DRIVETRAIN_LOSS) \<le> 0"
    by (simp add: DRIVETRAIN_LOSS_def)
  then have "max MIN_POWER (T / (1 - DRIVETRAIN_LOSS)) = 50"
    by (simp add: MIN_POWER_def max_def)
  then show ?thesis
    unfolding powerRequired_def Let_def T_def .
qed

lemma newtonRaphson_range:
  "0 < s \<Longrightarrow> s \<le> 30 \<Longrightarrow>
   0 < fst (newtonRaphson n P g h ps s) \<and> fst (newtonRaphson n P g h ps s) \<le> 30"
  by (induction n arbitrary: s) (simp_all add: Let_def)

text \<open>A seed inside the clamp interval keeps the result inside it.\<close>

lemma newtonRaphson_clamped:
  "1 \<le> s \<Longrightarrow> s \<le> 30 \<Longrightarrow>
   1 \<le> fst (newtonRaphson n P g h ps s) \<and> fst (newtonRaphson n P g h ps s) \<le> 30"
  by (induction n arbitrary: s) (simp_all add: Let_def)

lemma speedAtPower_range:
  assumes "0 < P / (0.5 * AIR_DENSITY * cda ps)" and "P / (0.5 * AIR_DENSITY * cda ps) \<le> 27000"
  shows "0 < speedAtPower P g h ps \<and> speedAtPower P g h ps \<le> 30"
proof -
  let ?x = "P / (0.5 * AIR_DENSITY * cda ps)"
  have "?x powr (1 / 3) \<le> 27000 powr (1 / 3)"
    using assms by (intro powr_mono2) simp_all
  then have hi: "?x powr (1 / 3) \<le> 30" by (simp only: cube_root_27000)
  have "?x \<noteq> 0" using assms(1) by (rule less_imp_neq[THEN not_sym])
  then have lo: "0 < ?x powr (1 / 3)" by (rule powr_gt_zero[THEN iffD2])
  show ?thesis
    unfolding speedAtPower_def speedAtPower_run_def
    by (rule newtonRaphson_range[OF lo hi])
qed



subsection \<open>The loop on JavaScript numbers\<close>


lemma powerRequired_js_Num:
  "powerRequired_js (Num v) g h ps = Num (powerRequired v g h ps)"
  unfolding powerRequired_js_def powerRequired_def Let_def
  by (simp add: DRIVETRAIN_LOSS_def algebra_simps)

lemma powerRequired_js_NaN: "powerRequired_js NaN g h ps = NaN"
  unfolding powerRequired_js_def Let_def by simp

lemma powerRequired_js_PosInf_cda0:
  "cda ps = 0 \<Longrightarrow> powerRequired_js PosInf g h ps = NaN"
  unfolding powerRequired_js_def Let_def by simp

lemma js_div_Num: "b \<noteq> 0 \<Longrightarrow> js_div (Num a) (Num b) = Num (a / b)"
  by simp

lemma js_pow_Num: "0 \<le> a \<Longrightarrow> js_pow (Num a) y = Num (a powr y)"
  by simp

lemma js_pow_neg: "a < 0 \<Longrightarrow> js_pow (Num a) y = NaN"
  by simp

lemma newtonRaphson_js_Num:
  "newtonRaphson_js n P g h ps (Num s) =
     (Num (fst (newtonRaphson n P g h ps s)), snd (newtonRaphson n P g h ps s))"
proof (induction n arbitrary: s)
  case 0
  then show ?case by simp
next
  case (Suc n)
  define e where "e = powerRequired s g h ps - P"
  define d where "d = (powerRequired (s + 0.1) g h ps - powerRequired s g h ps) / 0.1"
  have pj: "powerRequired_js (Num s) g h ps = Num (powerRequired s g h ps)"
    "powerRequired_js (js_add (Num s) (Num 0.1)) g h ps = Num (powerRequired (s + 0.1) g h ps)"
    by (simp_all add: powerRequired_js_Num)
  have err: "js_sub (Num (powerRequired s g h ps)) (Num P) = Num e"
    by (simp add: js_sub_def e_def)
  have der: "js_div (js_sub (Num (powerRequired (s + 0.1) g h ps)) (Num (powerRequired s g h ps)))
      (Num 0.1) = Num d"
    by (simp add: js_sub_def d_def)
  have js: "newtonRaphson_js (Suc n) P g h ps (Num s) =
      (if \<bar>e\<bar> < 0.1 then (Num s, Converged)
       else if \<bar>d\<bar> < 0.001 then (Num s, FlatDerivative)
       else newtonRaphson_js n P g h ps
              (js_max (Num 1) (js_min (js_sub (Num s) (js_div (Num e) (Num d))) (Num 30))))"
    unfolding newtonRaphson_js.simps Let_def pj err der
    by (simp only: js_abs.simps js_lt.simps)
  have re: "newtonRaphson (Suc n) P g h ps s =
      (if \<bar>e\<bar> < 0.1 then (s, Converged)
       else if \<bar>d\<bar> < 0.001 then (s, FlatDerivative)
       else newtonRaphson n P g h ps (max 1 (min (s - e / d) 30)))"
    unfolding newtonRaphson.simps Let_def e_def d_def by simp
  show ?case
  proof (cases "\<bar>e\<bar> < 0.1")
    case True
    then show ?thesis unfolding js re by simp
  next
    case False
    note nc = this
    show ?thesis
    proof (cases "\<bar>d\<bar> < 0.001")
      case True
      with nc show ?thesis unfolding js re by simp
    next
      case False
      then have nz: "d \<noteq> 0" by auto
      have "js_max (Num 1) (js_min (js_sub (Num s) (js_div (Num e) (Num d))) (Num 30))
          = Num (max 1 (min (s - e / d) 30))"
        using nz by (simp add: js_sub_def)
      with nc False show ?thesis unfolding js re by (simp add: Suc.IH)
    qed
  qed
qed

lemma newtonRaphson_js_NaN:
  "newtonRaphson_js n P g h ps NaN = (NaN, Exhausted)"
  by (induction n) (simp_all add: Let_def powerRequired_js_NaN js_sub_def)

lemma newtonRaphson_js_PosInf_cda0:
  "cda ps = 0 \<Longrightarrow> newtonRaphson_js n P g h ps PosInf = ((if n = 0 then PosInf else NaN), Exhausted)"
  by (cases n) (simp_all add: Let_def powerRequired_js_PosInf_cda0 powerRequired_js_NaN
      js_sub_def newtonRaphson_js_NaN)

text \<open>What the source's speedAtPower returns, by the seed.\<close>
lemma speedAtPower_js_finite:
  assumes "cda ps \<noteq> 0" and "0 \<le> P / (0.5 * AIR_DENSITY * cda ps)"
  shows "speedAtPower_js P g h ps = Num (speedAtPower P g h ps)"
proof -
  have nz: "0.5 * AIR_DENSITY * cda ps \<noteq> 0" using assms(1) by (simp add: AIR_DENSITY_def)
  have "js_pow (js_div (Num P) (Num (0.5 * AIR_DENSITY * cda ps))) (1 / 3)
      = Num ((P / (0.5 * AIR_DENSITY * cda ps)) powr (1 / 3))"
    by (simp only: js_div_Num[OF nz] js_pow_Num[OF assms(2)])
  then show ?thesis
    unfolding speedAtPower_js_def speedAtPower_def speedAtPower_run_def
    by (simp only: newtonRaphson_js_Num fst_conv)
qed

lemma speedAtPower_js_NaN:
  assumes "cda ps = 0 \<or> P / (0.5 * AIR_DENSITY * cda ps) < 0"
  shows "speedAtPower_js P g h ps = NaN"
proof (cases "cda ps = 0")
  case True
  then have d: "0.5 * AIR_DENSITY * cda ps = 0" by simp
  have "js_pow (js_div (Num P) (Num 0)) (1 / 3) = NaN \<or> js_pow (js_div (Num P) (Num 0)) (1 / 3) = PosInf"
    by simp
  then show ?thesis
    unfolding speedAtPower_js_def d
    by (auto simp: newtonRaphson_js_NaN newtonRaphson_js_PosInf_cda0[OF True])
next
  case False
  then have nz: "0.5 * AIR_DENSITY * cda ps \<noteq> 0" by (simp add: AIR_DENSITY_def)
  from False assms have neg: "P / (0.5 * AIR_DENSITY * cda ps) < 0" by simp
  have "js_pow (js_div (Num P) (Num (0.5 * AIR_DENSITY * cda ps))) (1 / 3) = NaN"
    by (simp only: js_div_Num[OF nz] js_pow_neg[OF neg])
  then show ?thesis
    unfolding speedAtPower_js_def by (simp only: newtonRaphson_js_NaN fst_conv)
qed

text \<open>A positive power and a positive \<open>cda\<close> give a positive finite speed.\<close>

lemma newtonRaphson_pos:
  "0 < s \<Longrightarrow> 0 < fst (newtonRaphson n P g h ps s)"
  by (induction n arbitrary: s) (simp_all add: Let_def)

lemma speedAtPower_js_pos:
  assumes "0 < P" and "0 < cda ps"
  shows "\<exists>s. speedAtPower_js P g h ps = Num s \<and> 0 < s"
proof -
  have q: "0 < P / (0.5 * AIR_DENSITY * cda ps)"
    using assms by (simp add: AIR_DENSITY_def)
  then have "P / (0.5 * AIR_DENSITY * cda ps) \<noteq> 0" by (rule less_imp_neq[THEN not_sym])
  then have seed: "0 < (P / (0.5 * AIR_DENSITY * cda ps)) powr (1 / 3)"
    by (rule powr_gt_zero[THEN iffD2])
  have "0 < speedAtPower P g h ps"
    unfolding speedAtPower_def speedAtPower_run_def by (rule newtonRaphson_pos[OF seed])
  moreover have "speedAtPower_js P g h ps = Num (speedAtPower P g h ps)"
    by (rule speedAtPower_js_finite) (use assms(2) q in simp_all)
  ultimately show ?thesis by blast
qed

lemma speedAtPower_zero_power:
  "speedAtPower_js 0 0 0 \<lparr>totalMass = 80, cda = 0.3, crr = 0.004\<rparr> = Num 0"
proof -
  let ?ps = "\<lparr>totalMass = 80, cda = 0.3, crr = 0.004\<rparr> :: physics"
  have q1: "powerRequired 0 0 0 ?ps = 50"
    by (simp add: powerRequired_def MIN_POWER_def)
  have q2: "powerRequired (0 + 0.1) 0 0 ?ps = 50"
    by (simp add: powerRequired_def MIN_POWER_def AIR_DENSITY_def GRAVITY_def
        DRIVETRAIN_LOSS_def power2_eq_square)
  have "newtonRaphson (Suc 19) 0 0 0 ?ps 0 = (0, FlatDerivative)"
    unfolding newtonRaphson.simps Let_def using q1 q2 by simp
  then have b: "speedAtPower 0 0 0 ?ps = 0"
    unfolding speedAtPower_def speedAtPower_run_def by simp
  have "speedAtPower_js 0 0 0 ?ps = Num (speedAtPower 0 0 0 ?ps)"
    by (rule speedAtPower_js_finite) simp_all
  then show ?thesis unfolding b .
qed

subsection \<open>Convergence of the Newton-Raphson loop on climbs with a non-negative headwind value\<close>


















section \<open>Physics engine\<close>

text \<open>
  C2 (sign of the headwind helper). The claim reads: for a positive wind speed the helper
  returns a negative value when the wind opposes travel and a positive one when it aids
  travel. The source computes the opposite sign. With the wind coming from bearing 0 and
  the rider travelling on bearing 0 (wind from straight ahead) it returns \<open>+5\<close> for a
  wind of 5 m/s; with the wind coming from bearing 180 (from directly behind) it returns
  \<open>-5\<close>.
\<close>

theorem calculateHeadwind_sign_ahead_and_behind:
  "calculateHeadwind 5 0 0 = 5 \<and> calculateHeadwind 5 180 0 = - 5"
  by (simp add: calculateHeadwind_def js_rem_def)




text \<open>
  C5 (monotonicity in speed), counterexample. On the flat with a headwind value of
  \<open>-15\<close> m/s (80 kg, CdA 0.3, Crr 0.004), the power required at 15 m/s is the 50 W floor,
  less than the power required at 5 m/s: the air-relative speed \<open>speed + headwind\<close> enters
  squared, and it is \<open>-10\<close> at 5 m/s and 0 at 15 m/s.
\<close>

theorem powerRequired_decreases_negative_airspeed:
  "powerRequired 15 0 (- 15) \<lparr>totalMass = 80, cda = 0.3, crr = 0.004\<rparr>
   < powerRequired 5 0 (- 15) \<lparr>totalMass = 80, cda = 0.3, crr = 0.004\<rparr>"
  by (simp add: powerRequired_def AIR_DENSITY_def GRAVITY_def DRIVETRAIN_LOSS_def MIN_POWER_def)

text \<open>
  C5 (monotonicity in speed), as amended. For a gradient \<open>g \<ge> 0\<close>, positive mass, CdA and
  Crr, speeds \<open>0 < v1 \<le> v2\<close> and a headwind value \<open>h\<close> with \<open>0 \<le> v1 + h\<close> (the
  air-relative speed is not negative; every \<open>h \<ge> 0\<close> qualifies),
  \<open>powerRequired v1 \<le> powerRequired v2\<close>.
\<close>

theorem powerRequired_mono_speed:
  assumes "0 \<le> g" "0 < totalMass ps" "0 < cda ps" "0 < crr ps" "0 < v1" "v1 \<le> v2" "0 \<le> v1 + h"
  shows "powerRequired v1 g h ps \<le> powerRequired v2 g h ps"
proof -
  define A where "A = 0.5 * AIR_DENSITY * cda ps"
  define K where "K = totalMass ps * GRAVITY * g + crr ps * totalMass ps * GRAVITY * cos (arctan g)"
  have A0: "0 \<le> A" using assms by (simp add: A_def AIR_DENSITY_def)
  have "0 < cos (arctan g)" by (rule cos_gt_zero_pi[OF arctan_lbound arctan_ubound])
  then have "0 \<le> crr ps * totalMass ps * GRAVITY * cos (arctan g)"
    using assms by (simp add: GRAVITY_def)
  moreover have "0 \<le> totalMass ps * GRAVITY * g" using assms by (simp add: GRAVITY_def)
  ultimately have K0: "0 \<le> K" unfolding K_def by linarith
  have sq: "(v1 + h)^2 \<le> (v2 + h)^2"
    using assms by (intro power_mono) simp_all
  have "A * (v1 + h)^2 \<le> A * (v2 + h)^2"
    using sq A0 by (rule mult_left_mono)
  then have br: "A * (v1 + h)^2 + K \<le> A * (v2 + h)^2 + K" by simp
  have br0: "0 \<le> A * (v2 + h)^2 + K" using A0 K0 by simp
  have "(A * (v1 + h)^2 + K) * v1 \<le> (A * (v2 + h)^2 + K) * v2"
    using br br0 assms(5,6) by (intro mult_mono) simp_all
  then have "(A * (v1 + h)^2 + K) * v1 / (1 - DRIVETRAIN_LOSS)
      \<le> (A * (v2 + h)^2 + K) * v2 / (1 - DRIVETRAIN_LOSS)"
    by (rule divide_right_mono) (simp add: DRIVETRAIN_LOSS_def)
  then have "max MIN_POWER ((A * (v1 + h)^2 + K) * v1 / (1 - DRIVETRAIN_LOSS))
      \<le> max MIN_POWER ((A * (v2 + h)^2 + K) * v2 / (1 - DRIVETRAIN_LOSS))"
    by (rule max.mono[OF order_refl])
  moreover have "\<And>v. powerRequired v g h ps
      = max MIN_POWER ((A * (v + h)^2 + K) * v / (1 - DRIVETRAIN_LOSS))"
    unfolding powerRequired_def Let_def A_def K_def by (simp add: algebra_simps)
  ultimately show ?thesis by (simp only:)
qed

text \<open>Witness for C5: a 5 percent climb, headwind value \<open>-3\<close> m/s, speeds 5 and 10 m/s.\<close>

theorem powerRequired_mono_speed_witness:
  "(0::real) \<le> 5 + (- 3)
   \<and> powerRequired 5 0.05 (- 3) \<lparr>totalMass = 80, cda = 0.3, crr = 0.004\<rparr>
     \<le> powerRequired 10 0.05 (- 3) \<lparr>totalMass = 80, cda = 0.3, crr = 0.004\<rparr>"
  using powerRequired_mono_speed
    [of "0.05" "\<lparr>totalMass = 80, cda = 0.3, crr = 0.004\<rparr>" 5 10 "- 3"]
  by simp

text \<open>
  C6 (result of \<open>speedAtPower\<close> inside 1 to 30 m/s). The claim reads: for every input with
  \<open>cda > 0\<close> the returned speed lies in the closed interval from 1 to 30, also on early
  exit from the iteration. The source clamps only after an update of the estimate; a
  \<open>break\<close> in the first iteration returns the seed as it is. At 7840 W on a 30 percent
  descent (80 kg, CdA 0.2, Crr 0.004) the seed is 40 m/s, \<open>powerRequired\<close> is on its floor
  at 40 and at 40.1 m/s, and 40 m/s is returned. At 0 W on the flat the seed 0 m/s is
  returned in the same way.
\<close>

theorem speedAtPower_returns_unclamped_seed:
  "speedAtPower 7840 (- 0.3) 0 \<lparr>totalMass = 80, cda = 0.2, crr = 0.004\<rparr> = 40
   \<and> speedAtPower 0 0 0 \<lparr>totalMass = 80, cda = 0.2, crr = 0.004\<rparr> = 0"
proof -
  let ?ps = "\<lparr>totalMass = 80, cda = 0.2, crr = 0.004\<rparr> :: physics"
  have p1: "powerRequired 40 (- 0.3) 0 ?ps = 50"
    by (rule powerRequired_floor) (simp_all add: AIR_DENSITY_def GRAVITY_def)
  have p2: "powerRequired (40 + 0.1) (- 0.3) 0 ?ps = 50"
    by (rule powerRequired_floor) (simp_all add: AIR_DENSITY_def GRAVITY_def power2_eq_square)
  have seed: "(7840 / (0.5 * AIR_DENSITY * cda ?ps)) powr (1 / 3) = (40::real)"
    using cube_root_64000 by (simp add: AIR_DENSITY_def)
  have "newtonRaphson (Suc 19) 7840 (- 0.3) 0 ?ps 40 = (40, FlatDerivative)"
    unfolding newtonRaphson.simps Let_def using p1 p2 by simp
  then have a: "speedAtPower 7840 (- 0.3) 0 ?ps = 40"
    unfolding speedAtPower_def speedAtPower_run_def seed by simp
  have q1: "powerRequired 0 0 0 ?ps = 50"
    by (simp add: powerRequired_def MIN_POWER_def)
  have q2: "powerRequired (0 + 0.1) 0 0 ?ps = 50"
    by (simp add: powerRequired_def MIN_POWER_def AIR_DENSITY_def GRAVITY_def
        DRIVETRAIN_LOSS_def power2_eq_square)
  have "newtonRaphson (Suc 19) 0 0 0 ?ps 0 = (0, FlatDerivative)"
    unfolding newtonRaphson.simps Let_def using q1 q2 by simp
  then have b: "speedAtPower 0 0 0 ?ps = 0"
    unfolding speedAtPower_def speedAtPower_run_def by simp
  from a b show ?thesis by simp
qed

section \<open>Segment smoothing\<close>

text \<open>The loop invariant: when the loop stands at index \<open>i\<close> with \<open>rest\<close> still to read,
  the distances emitted so far, the accumulated distance and the distances to come add up
  to the distances of the output.\<close>

lemma smooth_loop_distance:
  "i + int (length rest) = n \<Longrightarrow>
   sum_list (map distance (smooth_loop t n i acc sm rest)) =
     (if rest = [] then sum_list (map distance sm)
      else sum_list (map distance sm) + acc_distance acc + sum_list (map distance rest))"
proof (induction rest arbitrary: i acc sm)
  case Nil
  then show ?case by simp
next
  case (Cons seg rest)
  have len: "(i + 1) + int (length rest) = n" using Cons.prems by simp
  have last_iff: "i = n - 1 \<longleftrightarrow> rest = []" using Cons.prems by auto
  show ?case
    using Cons.IH[OF len] last_iff
    by (simp add: Let_def)
qed

text \<open>
  C9 (coalescing conserves distance). For every list of raw segments and every target
  length (positive or not), the distances of the segments returned by \<open>smoothSegments\<close>
  sum to the same real number as the distances of the raw segments.
\<close>

theorem smoothSegments_distance_conservative:
  "sum_list (map distance (smoothSegments segs targetLength)) = sum_list (map distance segs)"
  unfolding smoothSegments_def
  by (subst smooth_loop_distance) simp_all

section \<open>Power allocation\<close>

subsection \<open>The passes, field by field\<close>

lemma pass1_segment_shape:
  "\<exists>T. pass1_segment ps seg =
     segment.extend seg (planned.fields
       (calculateHeadwind (windSpeed ps / 3.6) (windDirection ps) (bearing seg))
       (max (minPower ps) T))"
  unfolding pass1_segment_def Let_def by (rule exI) (rule refl)

lemma pass1_segment_fields:
  "distance (pass1_segment ps seg) = distance seg"
  "headwind (pass1_segment ps seg)
     = calculateHeadwind (windSpeed ps / 3.6) (windDirection ps) (bearing seg)"
  "minPower ps \<le> optimizedPower (pass1_segment ps seg)"
proof -
  obtain T where "pass1_segment ps seg =
     segment.extend seg (planned.fields
       (calculateHeadwind (windSpeed ps / 3.6) (windDirection ps) (bearing seg))
       (max (minPower ps) T))"
    using pass1_segment_shape by blast
  then show "distance (pass1_segment ps seg) = distance seg"
    "headwind (pass1_segment ps seg)
       = calculateHeadwind (windSpeed ps / 3.6) (windDirection ps) (bearing seg)"
    "minPower ps \<le> optimizedPower (pass1_segment ps seg)"
    by (simp_all add: rec_defs)
qed

text \<open>The three branches of the second pass, with the segment time named.\<close>

lemma pass2_segment_cases:
  "t = js_div (Num (distance seg))
         (speedAtPower_js (optimizedPower seg) (gradient seg) (headwind seg) (physics_of ps))
   \<Longrightarrow> pass2_segment ps w seg =
     (if optimizedPower seg > ftp ps then
        (if js_lt (js_sub w (js_mul (Num (optimizedPower seg - ftp ps)) t)) (Num (wprime ps * 0.15))
         then (planned.extend (seg\<lparr>optimizedPower := basePower ps\<rparr>) (balanced.fields w), w)
         else (planned.extend seg
                 (balanced.fields (js_sub w (js_mul (Num (optimizedPower seg - ftp ps)) t))),
               js_sub w (js_mul (Num (optimizedPower seg - ftp ps)) t)))
      else (planned.extend seg
              (balanced.fields (js_min (Num (wprime ps))
                 (js_add w (js_mul (js_mul (Num (ftp ps - optimizedPower seg)) t) (Num 0.30))))),
            js_min (Num (wprime ps))
              (js_add w (js_mul (js_mul (Num (ftp ps - optimizedPower seg)) t) (Num 0.30)))))"
  unfolding pass2_segment_def Let_def by simp

lemma wBalance_extend: "wBalance (planned.extend seg (balanced.fields b)) = b"
  by (simp add: rec_defs)

lemma pass2_segment_wBalance:
  "wBalance (fst (pass2_segment ps w seg)) = snd (pass2_segment ps w seg)"
  unfolding pass2_segment_cases[OF refl] by (simp add: wBalance_extend)

lemma pass2_segment_headwind:
  "headwind (fst (pass2_segment ps w seg)) = headwind seg"
  by (simp add: pass2_segment_def Let_def rec_defs)

lemma pass2_loop_headwind:
  "map headwind (fst (pass2_loop ps w m xs)) = map headwind xs"
  by (induction xs arbitrary: w m) (simp_all add: Let_def split_beta pass2_segment_headwind)

lemma pass2_loop_append:
  "pass2_loop ps w m (xs @ ys) =
     (case pass2_loop ps w m xs of (o1, w1, m1) \<Rightarrow>
        (case pass2_loop ps w1 m1 ys of (o2, fin) \<Rightarrow> (o1 @ o2, fin)))"
  by (induction xs arbitrary: w m) (simp_all add: Let_def split_beta)

lemma pass3_segment_fields:
  "wBalance (pass3_segment ps seg) = wBalance seg"
  "headwind (pass3_segment ps seg) = headwind seg"
  "optimizedPower (pass3_segment ps seg) = optimizedPower seg"
  by (simp_all add: pass3_segment_def Let_def rec_defs)

lemma pass3_loop_segments:
  "fst (pass3_loop ps totals xs) = map (pass3_segment ps) xs"
proof (induction xs arbitrary: totals)
  case Nil
  then show ?case by simp
next
  case (Cons seg rest)
  obtain a b c where t: "totals = (a, b, c)" by (cases totals)
  show ?case unfolding t using Cons.IH by (simp add: Let_def split_beta)
qed

text \<open>\<open>optimize\<close> always returns; its segments and its \<open>minWBalance\<close>, pass by pass.\<close>

lemma optimize_result:
  "\<exists>r. optimize segs ps = Inr r
     \<and> segments r = map (pass3_segment ps) (fst (pass2 ps (pass1 ps segs)))
     \<and> minWBalance (metrics r) = snd (snd (pass2 ps (pass1 ps segs)))"
  unfolding optimize_def Let_def split_beta
  by (intro exI conjI, rule refl)
     (simp_all only: optimization_result.select_convs metrics.select_convs pass3_loop_segments)

lemma optimize_headwinds:
  "\<exists>r. optimize segs ps = Inr r
     \<and> map headwind (segments r) =
         map (\<lambda>seg. calculateHeadwind (windSpeed ps / 3.6) (windDirection ps) (bearing seg)) segs"
proof -
  obtain r where r: "optimize segs ps = Inr r"
     "segments r = map (pass3_segment ps) (fst (pass2 ps (pass1 ps segs)))"
    using optimize_result by blast
  have "map headwind (segments r) = map headwind (pass1 ps segs)"
    unfolding r(2) pass2_def by (simp add: comp_def pass3_segment_fields pass2_loop_headwind)
  also have "\<dots> = map (\<lambda>seg. calculateHeadwind (windSpeed ps / 3.6) (windDirection ps)
      (bearing seg)) segs"
    by (simp add: pass1_def comp_def pass1_segment_fields)
  finally show ?thesis using r(1) by blast
qed

subsection \<open>The reserve band of the second pass\<close>

lemma pass2_segment_bounds:
  assumes "pass2_segment ps (Num w) seg = (seg', wb')"
    and "0 \<le> distance seg" and "0 < optimizedPower seg" and "0 < cda ps"
    and "0.15 * wprime ps \<le> w" and "w \<le> wprime ps"
  shows "\<exists>w'. wb' = Num w' \<and> 0.15 * wprime ps \<le> w' \<and> w' \<le> wprime ps \<and> wBalance seg' = Num w'"
proof -
  have "0 < cda (physics_of ps)" using assms(4) by (simp add: physics_of_def)
  then obtain s where s: "speedAtPower_js (optimizedPower seg) (gradient seg) (headwind seg)
      (physics_of ps) = Num s" and s0: "0 < s"
    using speedAtPower_js_pos[OF assms(3)] by blast
  define t where "t = distance seg / s"
  have t0: "0 \<le> t" unfolding t_def using assms(2) s0 by simp
  have tj: "Num t = js_div (Num (distance seg))
      (speedAtPower_js (optimizedPower seg) (gradient seg) (headwind seg) (physics_of ps))"
    unfolding s t_def using s0 by simp
  have wb: "wBalance seg' = wb'"
    using pass2_segment_wBalance[of ps "Num w" seg] assms(1) by simp
  have wb': "wb' = snd (pass2_segment ps (Num w) seg)" using assms(1) by simp
  have "\<exists>w'. wb' = Num w' \<and> 0.15 * wprime ps \<le> w' \<and> w' \<le> wprime ps"
  proof (cases "optimizedPower seg > ftp ps")
    case True
    then have "0 \<le> optimizedPower seg - ftp ps" by simp
    then have c0: "0 \<le> (optimizedPower seg - ftp ps) * t" using t0 by (rule mult_nonneg_nonneg)
    show ?thesis
    proof (cases "w - (optimizedPower seg - ftp ps) * t < wprime ps * 0.15")
      case over: True
      have "wb' = Num w"
        unfolding wb' pass2_segment_cases[OF tj] using True over by (simp add: js_sub_def)
      then show ?thesis using assms(5,6) by simp
    next
      case False
      have "wb' = Num (w - (optimizedPower seg - ftp ps) * t)"
        unfolding wb' pass2_segment_cases[OF tj] using True False by (simp add: js_sub_def)
      then show ?thesis using False c0 assms(6) by simp
    qed
  next
    case False
    then have "0 \<le> ftp ps - optimizedPower seg" by simp
    then have "0 \<le> (ftp ps - optimizedPower seg) * t" using t0 by (rule mult_nonneg_nonneg)
    then have r0: "0 \<le> (ftp ps - optimizedPower seg) * t * 0.30" by simp
    have "wb' = Num (min (wprime ps) (w + (ftp ps - optimizedPower seg) * t * 0.30))"
      unfolding wb' pass2_segment_cases[OF tj] using False by simp
    then show ?thesis using r0 assms(5,6) by (simp add: min_def)
  qed
  then show ?thesis using wb by auto
qed

lemma pass2_loop_bounds:
  assumes "pass2_loop ps (Num w) (Num m) xs = (out, wEnd, mEnd)"
    and "\<forall>seg\<in>set xs. 0 \<le> distance seg \<and> 0 < optimizedPower seg" and "0 < cda ps"
    and "0.15 * wprime ps \<le> w" "w \<le> wprime ps" "0.15 * wprime ps \<le> m" "m \<le> wprime ps"
  shows "(\<forall>seg\<in>set out. \<exists>b. wBalance seg = Num b \<and> 0.15 * wprime ps \<le> b \<and> b \<le> wprime ps)
      \<and> (\<exists>b. mEnd = Num b \<and> 0.15 * wprime ps \<le> b \<and> b \<le> wprime ps)"
  using assms
proof (induction xs arbitrary: w m out wEnd mEnd)
  case Nil
  then show ?case by auto
next
  case (Cons seg rest)
  obtain seg' wb' where st: "pass2_segment ps (Num w) seg = (seg', wb')"
    by (cases "pass2_segment ps (Num w) seg")
  obtain w' where b: "wb' = Num w'" "0.15 * wprime ps \<le> w'" "w' \<le> wprime ps"
      "wBalance seg' = Num w'"
    using pass2_segment_bounds[OF st] Cons.prems by auto
  obtain out' wEnd' mEnd' where
    lp: "pass2_loop ps (Num w') (Num (min m w')) rest = (out', wEnd', mEnd')"
    by (cases "pass2_loop ps (Num w') (Num (min m w')) rest")
  have res: "out = seg' # out'" "mEnd = mEnd'"
    using Cons.prems(1) st lp unfolding b(1) by (simp_all add: Let_def)
  have ih: "(\<forall>seg\<in>set out'. \<exists>b. wBalance seg = Num b \<and> 0.15 * wprime ps \<le> b \<and> b \<le> wprime ps)
      \<and> (\<exists>b. mEnd' = Num b \<and> 0.15 * wprime ps \<le> b \<and> b \<le> wprime ps)"
    using Cons.IH[OF lp] Cons.prems b by simp
  show ?case unfolding res using b ih by simp
qed

subsection \<open>Claims on \<open>optimize\<close>\<close>

text \<open>
  C1 (reserve band), counterexample. With \<open>ftp = 0\<close> (and \<open>wprime = 20000\<close>, one flat
  segment of 100 m, no wind, target intensity 100) the planned power is 0, \<open>speedAtPower\<close>
  returns the seed 0, the segment time \<open>100 / 0\<close> is Infinity and the recovery
  \<open>(0 - 0) * Infinity * 0.30\<close> is NaN: the \<open>wBalance\<close> recorded on the segment and the
  reported \<open>minWBalance\<close> are NaN, not numbers between 3000 and 20000.
\<close>

theorem optimize_wBalance_nan_at_ftp_0:
  "map wBalance (segments (projr (optimize
      [\<lparr>startLat = 0, startLon = 0, endLat = 0, endLon = 0, distance = 100,
        cumulativeDistance = 100, elevation = 0, gradient = 0, bearing = 0\<rparr>]
      \<lparr>totalMass = 80, cda = 0.3, crr = 0.004, ftp = 0, wprime = 20000,
        windSpeed = 0, windDirection = 0, targetIntensity = 100\<rparr>))) = [NaN]
   \<and> minWBalance (metrics (projr (optimize
      [\<lparr>startLat = 0, startLon = 0, endLat = 0, endLon = 0, distance = 100,
        cumulativeDistance = 100, elevation = 0, gradient = 0, bearing = 0\<rparr>]
      \<lparr>totalMass = 80, cda = 0.3, crr = 0.004, ftp = 0, wprime = 20000,
        windSpeed = 0, windDirection = 0, targetIntensity = 100\<rparr>))) = NaN"
proof -
  let ?seg = "\<lparr>startLat = 0, startLon = 0, endLat = 0, endLon = 0, distance = 100,
        cumulativeDistance = 100, elevation = 0, gradient = 0, bearing = 0\<rparr>"
  let ?ps = "\<lparr>totalMass = 80, cda = 0.3, crr = 0.004, ftp = 0, wprime = 20000,
        windSpeed = 0, windDirection = 0, targetIntensity = 100\<rparr>"
  let ?pl = "\<lparr>startLat = 0, startLon = 0, endLat = 0, endLon = 0, distance = 100,
        cumulativeDistance = 100, elevation = 0, gradient = 0, bearing = 0,
        headwind = 0, optimizedPower = 0\<rparr>"
  have p1: "pass1 ?ps [?seg] = [?pl]"
    by (simp add: pass1_def pass1_segment_def Let_def calculateHeadwind_def basePower_def
        minPower_def maxPower_def rec_defs)
  have t: "PosInf = js_div (Num (distance ?pl))
      (speedAtPower_js (optimizedPower ?pl) (gradient ?pl) (headwind ?pl) (physics_of ?ps))"
    using speedAtPower_zero_power by (simp add: physics_of_def)
  have st: "snd (pass2_segment ?ps (Num 20000) ?pl) = NaN"
    unfolding pass2_segment_cases[OF t] by simp
  obtain seg' where st': "pass2_segment ?ps (Num 20000) ?pl = (seg', NaN)" "wBalance seg' = NaN"
    using st pass2_segment_wBalance[of ?ps "Num 20000" ?pl]
    by (cases "pass2_segment ?ps (Num 20000) ?pl") simp
  have p2: "pass2 ?ps [?pl] = ([seg'], NaN, NaN)"
    unfolding pass2_def using st'(1) by simp
  obtain r where r: "optimize [?seg] ?ps = Inr r"
     "segments r = map (pass3_segment ?ps) (fst (pass2 ?ps (pass1 ?ps [?seg])))"
     "minWBalance (metrics r) = snd (snd (pass2 ?ps (pass1 ?ps [?seg])))"
    using optimize_result by blast
  have "map wBalance (segments r) = [NaN]"
    unfolding r(2) p1 p2 by (simp add: pass3_segment_fields st')
  moreover have "minWBalance (metrics r) = NaN"
    unfolding r(3) p1 p2 by simp
  ultimately show ?thesis unfolding r(1) by simp
qed

text \<open>
  C1 (reserve band), as amended. With \<open>wprime > 0\<close>, every segment of positive distance
  and, in addition, \<open>ftp > 0\<close>, \<open>targetIntensity > 0\<close> and \<open>cda > 0\<close> (which make the power
  of every segment positive and its speed a positive finite number), \<open>optimize\<close> returns
  a result in which the \<open>wBalance\<close> recorded on every segment (the balance carried after
  that segment) and the reported \<open>minWBalance\<close> are finite numbers between
  \<open>0.15 * wprime\<close> and \<open>wprime\<close>.
\<close>

theorem optimize_wBalance_in_reserve_band:
  assumes "0 < wprime ps" and "\<forall>seg\<in>set segs. 0 < distance seg"
    and "0 < ftp ps" and "0 < targetIntensity ps" and "0 < cda ps"
  shows "\<exists>r. optimize segs ps = Inr r
     \<and> (\<forall>seg\<in>set (segments r).
           \<exists>b. wBalance seg = Num b \<and> 0.15 * wprime ps \<le> b \<and> b \<le> wprime ps)
     \<and> (\<exists>b. minWBalance (metrics r) = Num b \<and> 0.15 * wprime ps \<le> b \<and> b \<le> wprime ps)"
proof -
  obtain r where r: "optimize segs ps = Inr r"
     "segments r = map (pass3_segment ps) (fst (pass2 ps (pass1 ps segs)))"
     "minWBalance (metrics r) = snd (snd (pass2 ps (pass1 ps segs)))"
    using optimize_result by blast
  obtain out wEnd mEnd where
    p2: "pass2_loop ps (Num (wprime ps)) (Num (wprime ps)) (pass1 ps segs) = (out, wEnd, mEnd)"
    by (cases "pass2_loop ps (Num (wprime ps)) (Num (wprime ps)) (pass1 ps segs)")
  have mp: "0 < minPower ps"
    using assms(3,4) by (simp add: minPower_def basePower_def)
  have d: "\<forall>seg\<in>set (pass1 ps segs). 0 \<le> distance seg \<and> 0 < optimizedPower seg"
  proof
    fix seg assume "seg \<in> set (pass1 ps segs)"
    then obtain s where s: "s \<in> set segs" "seg = pass1_segment ps s"
      by (auto simp: pass1_def)
    have "0 \<le> distance seg" using s assms(2) by (simp add: pass1_segment_fields less_imp_le)
    moreover have "0 < optimizedPower seg"
      using mp pass1_segment_fields(3)[of ps s] unfolding s(2) by linarith
    ultimately show "0 \<le> distance seg \<and> 0 < optimizedPower seg" by simp
  qed
  have b: "(\<forall>seg\<in>set out. \<exists>b. wBalance seg = Num b \<and> 0.15 * wprime ps \<le> b \<and> b \<le> wprime ps)
      \<and> (\<exists>b. mEnd = Num b \<and> 0.15 * wprime ps \<le> b \<and> b \<le> wprime ps)"
    using pass2_loop_bounds[OF p2 d assms(5)] assms(1) by simp
  have "\<forall>seg\<in>set (segments r).
      \<exists>b. wBalance seg = Num b \<and> 0.15 * wprime ps \<le> b \<and> b \<le> wprime ps"
    unfolding r(2) pass2_def p2 using b by (simp add: pass3_segment_fields)
  moreover have "\<exists>b. minWBalance (metrics r) = Num b \<and> 0.15 * wprime ps \<le> b \<and> b \<le> wprime ps"
    unfolding r(3) pass2_def p2 using b by simp
  ultimately show ?thesis using r(1) by blast
qed

text \<open>Witness for C1: a 1000 m segment at 8 percent, \<open>ftp = 250\<close>, target intensity 90 and
  a reserve of 5000 J, whose band is 750 J to 5000 J.\<close>

theorem optimize_wBalance_in_reserve_band_witness:
  "\<exists>r. optimize
      [\<lparr>startLat = 0, startLon = 0, endLat = 0, endLon = 0, distance = 1000,
        cumulativeDistance = 1000, elevation = 80, gradient = 0.08, bearing = 0\<rparr>]
      \<lparr>totalMass = 80, cda = 0.3, crr = 0.004, ftp = 250, wprime = 5000,
        windSpeed = 0, windDirection = 0, targetIntensity = 90\<rparr> = Inr r
     \<and> (\<forall>seg\<in>set (segments r). \<exists>b. wBalance seg = Num b \<and> 750 \<le> b \<and> b \<le> 5000)
     \<and> (\<exists>b. minWBalance (metrics r) = Num b \<and> 750 \<le> b \<and> b \<le> 5000)"
  using optimize_wBalance_in_reserve_band
    [of "\<lparr>totalMass = 80, cda = 0.3, crr = 0.004, ftp = 250, wprime = 5000,
          windSpeed = 0, windDirection = 0, targetIntensity = 90\<rparr>"
        "[\<lparr>startLat = 0, startLon = 0, endLat = 0, endLon = 0, distance = 1000,
          cumulativeDistance = 1000, elevation = 80, gradient = 0.08, bearing = 0\<rparr>]"]
  by simp

text \<open>
  C3 (wind speed taken as metres per second), counterexample. With \<open>windSpeed = 36\<close> and
  the wind coming from the bearing of the segment, the recorded headwind is 10, not 36:
  the source divides \<open>windSpeed\<close> by 3.6 before it calls the helper.
\<close>

theorem optimize_headwind_of_wind_36:
  "map headwind (segments (projr (optimize
      [\<lparr>startLat = 0, startLon = 0, endLat = 0, endLon = 0, distance = 100,
        cumulativeDistance = 100, elevation = 0, gradient = 0, bearing = 0\<rparr>]
      \<lparr>totalMass = 80, cda = 0.3, crr = 0.004, ftp = 250, wprime = 20000,
        windSpeed = 36, windDirection = 0, targetIntensity = 100\<rparr>))) = [10]"
proof -
  let ?segs = "[\<lparr>startLat = 0, startLon = 0, endLat = 0, endLon = 0, distance = 100,
        cumulativeDistance = 100, elevation = 0, gradient = 0, bearing = 0\<rparr>]"
  let ?ps = "\<lparr>totalMass = 80, cda = 0.3, crr = 0.004, ftp = 250, wprime = 20000,
        windSpeed = 36, windDirection = 0, targetIntensity = 100\<rparr>"
  obtain r where r: "optimize ?segs ?ps = Inr r"
     "map headwind (segments r) =
         map (\<lambda>seg. calculateHeadwind (windSpeed ?ps / 3.6) (windDirection ?ps) (bearing seg)) ?segs"
    using optimize_headwinds by blast
  have "calculateHeadwind (36 / 3.6) 0 0 = 10"
    by (simp add: calculateHeadwind_from_ahead)
  then show ?thesis unfolding r(1) using r(2) by simp
qed

text \<open>
  C3, as amended. For every segment, \<open>optimize\<close> records as \<open>headwind\<close> the helper applied
  to \<open>windSpeed / 3.6\<close> (the wind speed is taken in km/h and converted to m/s), the wind
  direction and the bearing of the segment; for wind exactly aligned with or exactly
  against the bearing (the two differ by a multiple of 180 degrees) the absolute value of
  the recorded headwind is \<open>\<bar>windSpeed\<bar> / 3.6\<close>.
\<close>

theorem optimize_headwind_from_kmh:
  "\<exists>r. optimize segs ps = Inr r \<and> length (segments r) = length segs
     \<and> (\<forall>i<length segs.
           headwind (segments r ! i) =
             calculateHeadwind (windSpeed ps / 3.6) (windDirection ps) (bearing (segs ! i))
         \<and> (\<forall>k::int. windDirection ps - bearing (segs ! i) = 180 * of_int k
               \<longrightarrow> \<bar>headwind (segments r ! i)\<bar> = \<bar>windSpeed ps\<bar> / 3.6))"
proof -
  obtain r where r: "optimize segs ps = Inr r"
     "map headwind (segments r) =
         map (\<lambda>seg. calculateHeadwind (windSpeed ps / 3.6) (windDirection ps) (bearing seg)) segs"
    using optimize_headwinds by blast
  have len: "length (segments r) = length segs"
    using arg_cong[OF r(2), of length] by simp
  have hw: "headwind (segments r ! i) =
             calculateHeadwind (windSpeed ps / 3.6) (windDirection ps) (bearing (segs ! i))"
    if "i < length segs" for i
    using arg_cong[OF r(2), of "\<lambda>xs. xs ! i"] that len by simp
  have al: "\<bar>headwind (segments r ! i)\<bar> = \<bar>windSpeed ps\<bar> / 3.6"
    if "i < length segs" "windDirection ps - bearing (segs ! i) = 180 * of_int k"
    for i and k :: int
    unfolding hw[OF that(1)] calculateHeadwind_aligned[OF that(2)] by simp
  show ?thesis using r(1) len hw al by blast
qed

text \<open>Witness for C3: a wind of 36 km/h from bearing 90 on a segment of bearing 270 (from
  directly behind); the recorded headwind has absolute value 10.\<close>

theorem optimize_headwind_from_kmh_witness:
  "\<exists>r. optimize
      [\<lparr>startLat = 0, startLon = 0, endLat = 0, endLon = 0, distance = 100,
        cumulativeDistance = 100, elevation = 0, gradient = 0, bearing = 270\<rparr>]
      \<lparr>totalMass = 80, cda = 0.3, crr = 0.004, ftp = 250, wprime = 20000,
        windSpeed = 36, windDirection = 90, targetIntensity = 100\<rparr> = Inr r
     \<and> \<bar>headwind (segments r ! 0)\<bar> = 10"
proof -
  let ?segs = "[\<lparr>startLat = 0, startLon = 0, endLat = 0, endLon = 0, distance = 100,
        cumulativeDistance = 100, elevation = 0, gradient = 0, bearing = 270\<rparr>]"
  let ?ps = "\<lparr>totalMass = 80, cda = 0.3, crr = 0.004, ftp = 250, wprime = 20000,
        windSpeed = 36, windDirection = 90, targetIntensity = 100\<rparr>"
  obtain r where r: "optimize ?segs ?ps = Inr r"
    and a: "\<forall>i<length ?segs. \<forall>k::int. windDirection ?ps - bearing (?segs ! i) = 180 * of_int k
               \<longrightarrow> \<bar>headwind (segments r ! i)\<bar> = \<bar>windSpeed ?ps\<bar> / 3.6"
    using optimize_headwind_from_kmh[of ?segs ?ps] by blast
  have "\<bar>headwind (segments r ! 0)\<bar> = \<bar>windSpeed ?ps\<bar> / 3.6"
    using a[rule_format, of 0 "- 1"] by simp
  then show ?thesis using r by simp
qed

text \<open>
  C7 (aggressiveness is clamped to 0..1). The claim reads: for every target intensity the
  factor equals \<open>clamp((targetIntensity - 65) / 35, 0, 1)\<close>. The source bounds the factor
  below only, by \<open>Math.max(0, ...)\<close>, although its comment reads \<open>0 to 1\<close>: at a target
  intensity of 135 the factor is 2, where the clamp gives 1.
\<close>

theorem aggressiveness_at_135:
  "aggressiveness \<lparr>totalMass = 80, cda = 0.3, crr = 0.004, ftp = 250, wprime = 20000,
      windSpeed = 0, windDirection = 0, targetIntensity = 135\<rparr> = 2
   \<and> max 0 (min 1 ((135 - 65) / 35)) = (1::real)"
  by (simp add: aggressiveness_def)

text \<open>Up to a target intensity of 100 the factor is the clamped one.\<close>

lemma aggressiveness_up_to_100:
  "targetIntensity ps \<le> 100 \<Longrightarrow>
   aggressiveness ps = max 0 (min 1 ((targetIntensity ps - 65) / 35))"
  by (simp add: aggressiveness_def min_def)

text \<open>
  C8 (empty route), counterexample. Invoked on the empty segment list, \<open>optimize\<close> does not
  end in \<open>InputTooShort\<close>: it returns a result with no segments, a total time of 0 and
  ratio metrics that divide by that zero.
\<close>

theorem optimize_empty_example:
  "optimize [] \<lparr>totalMass = 80, cda = 0.3, crr = 0.004, ftp = 250, wprime = 20000,
       windSpeed = 0, windDirection = 0, targetIntensity = 100\<rparr>
   = Inr \<lparr>segments = [], metrics = \<lparr>totalTime = Num 0, avgPower = NaN, normPower = NaN,
        intensityFactor = NaN, tss = NaN, avgSpeed = NaN, minWBalance = Num 20000,
        wprimePercent = Num 100\<rparr>\<rparr>"
  by (simp add: optimize_def pass1_def pass2_def)

text \<open>
  C8, as amended. \<open>optimize\<close> has no rejection of its own: on the empty segment list it
  returns a result with no segments, \<open>totalTime = 0\<close>, \<open>minWBalance = wprime\<close>,
  \<open>wprimePercent = (wprime / wprime) * 100\<close>, and the metrics \<open>avgPower\<close>, \<open>normPower\<close>,
  \<open>intensityFactor\<close>, \<open>tss\<close> and \<open>avgSpeed\<close> NaN (quotients by the zero total time). The
  empty route is turned away one level up: the callers \<open>calculate\<close> and
  \<open>autoRecommendIntensity\<close> alert and return without invoking \<open>optimize\<close>.
\<close>

theorem optimize_empty_returns:
  "optimize [] ps
   = Inr \<lparr>segments = [], metrics = \<lparr>totalTime = Num 0, avgPower = NaN, normPower = NaN,
        intensityFactor = NaN, tss = NaN, avgSpeed = NaN, minWBalance = Num (wprime ps),
        wprimePercent = js_mul (js_div (Num (wprime ps)) (Num (wprime ps))) (Num 100)\<rparr>\<rparr>
   \<and> calculate [] ps = Inl PleaseLoadGpxFirst
   \<and> autoRecommendIntensity_testResult [] ps = Inl PleaseLoadGpxFirst"
  by (simp add: optimize_def pass1_def pass2_def calculate_def
      autoRecommendIntensity_testResult_def)

text \<open>
  C10 (an overridden segment leaves the reserve as it was). Let \<open>wB\<close> be the balance with
  which the second pass reaches a segment \<open>seg\<close>, after the segments \<open>pre\<close>. If the power
  of \<open>seg\<close> exceeds \<open>ftp\<close> and spending its cost would take the balance below
  \<open>0.15 * wprime\<close>, then the segment comes out with power \<open>basePower\<close> and with the
  recorded \<open>wBalance = wB\<close>, and the segments \<open>post\<close> after it are processed from the very
  balance \<open>wB\<close>: nothing was spent and nothing recovered.
\<close>

theorem pass2_override_keeps_balance:
  assumes "pass2_loop ps (Num (wprime ps)) (Num (wprime ps)) pre = (out_pre, wB, mW)"
    and "ftp ps < optimizedPower seg"
    and "js_lt (js_sub wB (js_mul (Num (optimizedPower seg - ftp ps))
           (js_div (Num (distance seg))
             (speedAtPower_js (optimizedPower seg) (gradient seg) (headwind seg) (physics_of ps)))))
         (Num (wprime ps * 0.15))"
  shows "\<exists>seg' out_post.
           fst (pass2 ps (pre @ seg # post)) = out_pre @ seg' # out_post
         \<and> optimizedPower seg' = basePower ps
         \<and> wBalance seg' = wB
         \<and> pass2_loop ps wB (js_min mW wB) post = (out_post, snd (pass2 ps (pre @ seg # post)))"
proof -
  define seg' where
    "seg' = planned.extend (seg\<lparr>optimizedPower := basePower ps\<rparr>) (balanced.fields wB)"
  have st: "pass2_segment ps wB seg = (seg', wB)"
    unfolding pass2_segment_cases[OF refl] seg'_def using assms(2,3) by simp
  obtain out_post fin where lp: "pass2_loop ps wB (js_min mW wB) post = (out_post, fin)"
    by (cases "pass2_loop ps wB (js_min mW wB) post")
  have "pass2_loop ps wB mW (seg # post) = (seg' # out_post, fin)"
    using st lp by (simp add: Let_def)
  then have "pass2 ps (pre @ seg # post) = (out_pre @ seg' # out_post, fin)"
    unfolding pass2_def pass2_loop_append assms(1) by simp
  moreover have "optimizedPower seg' = basePower ps" "wBalance seg' = wB"
    unfolding seg'_def by (simp_all add: rec_defs)
  ultimately show ?thesis using lp by simp
qed

text \<open>Witness for C10: the first segment of a route, 3000 m at 8 percent, planned at 300 W
  with \<open>ftp = 250\<close> and a reserve of 5000 J. The speed is at most 30 m/s, so the segment
  takes at least 100 s and costs at least 5000 J: the check fires, the power becomes the
  base power 250 W and the recorded balance is the full 5000 J.\<close>

theorem pass2_override_keeps_balance_witness:
  "\<exists>seg' out_post.
      fst (pass2 \<lparr>totalMass = 80, cda = 0.3, crr = 0.004, ftp = 250, wprime = 5000,
                  windSpeed = 0, windDirection = 0, targetIntensity = 100\<rparr>
            ([] @ \<lparr>startLat = 0, startLon = 0, endLat = 0, endLon = 0, distance = 3000,
                cumulativeDistance = 3000, elevation = 240, gradient = 0.08, bearing = 0,
                headwind = 0, optimizedPower = 300\<rparr> # [])) = [] @ seg' # out_post
    \<and> optimizedPower seg' = 250 \<and> wBalance seg' = Num 5000"
proof -
  let ?ps = "\<lparr>totalMass = 80, cda = 0.3, crr = 0.004, ftp = 250, wprime = 5000,
                  windSpeed = 0, windDirection = 0, targetIntensity = 100\<rparr>"
  let ?seg = "\<lparr>startLat = 0, startLon = 0, endLat = 0, endLon = 0, distance = 3000,
                cumulativeDistance = 3000, elevation = 240, gradient = 0.08, bearing = 0,
                headwind = 0, optimizedPower = 300\<rparr>"
  have h1: "pass2_loop ?ps (Num (wprime ?ps)) (Num (wprime ?ps)) [] = ([], Num 5000, Num 5000)"
    by simp
  have h2: "ftp ?ps < optimizedPower ?seg" by simp
  have sp: "0 < speedAtPower 300 0.08 0 (physics_of ?ps)
      \<and> speedAtPower 300 0.08 0 (physics_of ?ps) \<le> 30"
    by (rule speedAtPower_range) (simp_all add: physics_of_def AIR_DENSITY_def)
  have sj: "speedAtPower_js 300 0.08 0 (physics_of ?ps) = Num (speedAtPower 300 0.08 0 (physics_of ?ps))"
    by (rule speedAtPower_js_finite) (simp_all add: physics_of_def AIR_DENSITY_def)
  from sp have "3000 / 30 \<le> 3000 / speedAtPower 300 0.08 0 (physics_of ?ps)"
    by (intro divide_left_mono) simp_all
  then have h3: "js_lt (js_sub (Num 5000) (js_mul (Num (optimizedPower ?seg - ftp ?ps))
           (js_div (Num (distance ?seg))
             (speedAtPower_js (optimizedPower ?seg) (gradient ?seg) (headwind ?seg) (physics_of ?ps)))))
         (Num (wprime ?ps * 0.15))"
    using sp sj by (simp add: js_sub_def)
  obtain seg' out_post where
    "fst (pass2 ?ps ([] @ ?seg # [])) = [] @ seg' # out_post"
    "optimizedPower seg' = basePower ?ps" "wBalance seg' = Num 5000"
    using pass2_override_keeps_balance[OF h1 h2 h3, of "[]"] by blast
  moreover have "basePower ?ps = 250" by (simp add: basePower_def)
  ultimately show ?thesis by (intro exI[of _ seg'] exI[of _ out_post]) simp
qed

end
